theory Spec2Isabelle
  imports Complex_Main "HOL-Library.Multiset" "HOL-Library.Sublist"
begin

section \<open>Earthquake visualizer: data model\<close>

text \<open>
  The application (\<^verbatim>\<open>src/App.jsx\<close>) is one React component over GeoJSON features of the
  USGS feed. A feature is read by the code through \<^verbatim>\<open>f.id\<close>,
  \<^verbatim>\<open>f.geometry?.coordinates\<close>, \<^verbatim>\<open>f.properties.time\<close>, \<^verbatim>\<open>f.properties?.place\<close>,
  \<^verbatim>\<open>f.properties?.mag\<close> and \<^verbatim>\<open>props.url\<close>.

  \<^item> \<open>time\<close> is the epoch-millisecond timestamp, an integer; JavaScript's subtraction and
    comparison of such numbers are exact, so it is an \<open>int\<close> here.
  \<^item> \<open>place\<close>, \<open>mag\<close> and \<open>url\<close> may be absent (\<^verbatim>\<open>null\<close> or \<^verbatim>\<open>undefined\<close>): options.
  \<^item> magnitudes are JavaScript numbers; they are idealised as \<open>real\<close>.
  \<^item> \<open>coordinates\<close> is \<open>None\<close> when \<^verbatim>\<open>f.geometry?.coordinates\<close> is absent and otherwise the
    array found there, whose entries need not be numbers.
  \<^item> strings are \<open>char list\<close>; case folding and trimming are modelled on ASCII.

  An element of a delivered array that has no \<^verbatim>\<open>properties\<close> object is not a feature: the
  store can hold one, and the model of the store below has a case for it.
\<close>

datatype jsval = JNum real | JNotNum

record feature =
  fid :: string
  coordinates :: "jsval list option"
  time :: int
  place :: "string option"
  mag :: "real option"
  url :: "string option"

section \<open>Colour and radius of a circle marker\<close>

definition magnitudeColor :: "real \<Rightarrow> string" where
  "magnitudeColor m =
     (if m \<ge> 7 then ''#7f0000''
      else if m \<ge> 6 then ''#b30000''
      else if m \<ge> 5 then ''#e34a33''
      else if m \<ge> 4 then ''#fc8d59''
      else if m \<ge> 3 then ''#fdbb84''
      else if m \<ge> 2 then ''#fdd49e''
      else ''#fee8c8'')"

definition magToRadius :: "real \<Rightarrow> real" where
  "magToRadius m = max 3 ((m + 1) ^ 2)"

text \<open>
  The band of a magnitude, as the specification words it: the thresholds 2, 3, 4, 5, 6, 7
  cut the magnitudes into seven bands; the band of \<open>m\<close> is the number of thresholds at or
  below \<open>m\<close>.
\<close>

definition spec_thresholds :: "real list" where
  "spec_thresholds = [2, 3, 4, 5, 6, 7]"

definition spec_band :: "real \<Rightarrow> nat" where
  "spec_band m = length (filter (\<lambda>t. t \<le> m) spec_thresholds)"

definition palette :: "string list" where
  "palette = [''#fee8c8'', ''#fdd49e'', ''#fdbb84'', ''#fc8d59'', ''#e34a33'', ''#b30000'', ''#7f0000'']"

section \<open>Timeline index: sorting by time\<close>

text \<open>
  \<^verbatim>\<open>[...features].sort((a, b) => a.properties.time - b.properties.time)\<close>.
  \<^verbatim>\<open>Array.prototype.sort\<close> is a built-in: ECMAScript (since 2019) requires it to be stable
  and to order by the sign of the comparator. It is modelled by a stable insertion sort
  driven by the comparator: an element goes in front of the first element it does not
  compare greater than.
\<close>

fun insert_by :: "('a \<Rightarrow> 'a \<Rightarrow> int) \<Rightarrow> 'a \<Rightarrow> 'a list \<Rightarrow> 'a list" where
  "insert_by cmp x [] = [x]"
| "insert_by cmp x (y # ys) =
     (if cmp x y \<le> 0 then x # y # ys else y # insert_by cmp x ys)"

fun js_sort :: "('a \<Rightarrow> 'a \<Rightarrow> int) \<Rightarrow> 'a list \<Rightarrow> 'a list" where
  "js_sort cmp [] = []"
| "js_sort cmp (x # xs) = insert_by cmp x (js_sort cmp xs)"

definition by_time :: "feature \<Rightarrow> feature \<Rightarrow> int" where
  "by_time a b = time a - time b"

definition sorted_features :: "feature list \<Rightarrow> feature list" where
  "sorted_features features = js_sort by_time features"

definition times_list :: "feature list \<Rightarrow> int list" where
  "times_list srt = map time srt"

abbreviation time_le :: "feature \<Rightarrow> feature \<Rightarrow> bool" where
  "time_le a b \<equiv> time a \<le> time b"

section \<open>JavaScript built-ins used by the filter pipeline\<close>

text \<open>
  \<^verbatim>\<open>String.prototype.trim\<close> removes white space at both ends, \<^verbatim>\<open>toLowerCase\<close> folds
  case and \<^verbatim>\<open>s.includes(q)\<close> tells whether \<open>q\<close> occurs in \<open>s\<close> as a contiguous run. On the
  byte strings of this model, white space is the ASCII white space and case folding maps
  \<open>A\<close>..\<open>Z\<close> to \<open>a\<close>..\<open>z\<close>.
\<close>

definition is_ws :: "char \<Rightarrow> bool" where
  "is_ws c = (of_char c \<in> {9, 10, 11, 12, 13, 32 :: nat})"

definition trim :: "string \<Rightarrow> string" where
  "trim s = rev (dropWhile is_ws (rev (dropWhile is_ws s)))"

definition lower_char :: "char \<Rightarrow> char" where
  "lower_char c =
     (let n = of_char c :: nat in if 65 \<le> n \<and> n \<le> 90 then char_of (n + 32) else c)"

definition toLowerCase :: "string \<Rightarrow> string" where
  "toLowerCase s = map lower_char s"

fun js_includes :: "string \<Rightarrow> string \<Rightarrow> bool" where
  "js_includes [] q = (q = [])"
| "js_includes (c # cs) q = (prefix q (c # cs) \<or> js_includes cs q)"

text \<open>
  Reading an array at an index, \<^verbatim>\<open>xs[i]\<close>: \<^verbatim>\<open>undefined\<close> (here \<open>None\<close>) outside the array.
\<close>

definition js_index :: "'a list \<Rightarrow> int \<Rightarrow> 'a option" where
  "js_index xs i = (if 0 \<le> i \<and> i < int (length xs) then Some (xs ! nat i) else None)"

text \<open>
  \<^verbatim>\<open>t <= cutoff\<close> for a number \<open>t\<close>: when the cutoff is \<^verbatim>\<open>undefined\<close> it converts to
  \<^verbatim>\<open>NaN\<close> and the comparison is false.
\<close>

definition js_le :: "int \<Rightarrow> int option \<Rightarrow> bool" where
  "js_le t cutoff = (case cutoff of None \<Rightarrow> False | Some c \<Rightarrow> t \<le> c)"

section \<open>Filter pipeline\<close>

text \<open>\<^verbatim>\<open>(f.properties?.place || "")\<close>: an absent place reads as the empty string.\<close>

definition place_or_empty :: "feature \<Rightarrow> string" where
  "place_or_empty f = (case place f of None \<Rightarrow> [] | Some p \<Rightarrow> p)"

text \<open>
  The body of the \<^verbatim>\<open>filtered\<close> memo, in its two guarded stages:
  \<^verbatim>\<open>if (textFilter.trim()) { q = textFilter.toLowerCase(); base = base.filter(...) }\<close> and
  \<^verbatim>\<open>if (times.length > 0) { cutoff = times[timeIndex]; base = base.filter(...) }\<close>.
\<close>

definition text_stage :: "string \<Rightarrow> feature list \<Rightarrow> feature list" where
  "text_stage textFilter base =
     (if trim textFilter \<noteq> [] then
        (let q = toLowerCase textFilter
         in filter (\<lambda>f. js_includes (toLowerCase (place_or_empty f)) q) base)
      else base)"

definition cutoff_stage :: "int list \<Rightarrow> int \<Rightarrow> feature list \<Rightarrow> feature list" where
  "cutoff_stage tms timeIndex base =
     (if length tms > 0 then
        (let cutoff = js_index tms timeIndex
         in filter (\<lambda>f. js_le (time f) cutoff) base)
      else base)"

definition filtered_of :: "feature list \<Rightarrow> int list \<Rightarrow> string \<Rightarrow> int \<Rightarrow> feature list" where
  "filtered_of srt tms textFilter timeIndex =
     cutoff_stage tms timeIndex (text_stage textFilter srt)"

section \<open>Component state\<close>

text \<open>
  The state variables of the component that the timeline, the fetch and the rendering
  read, and two resources that live in effect closures rather than in React state:
  \<open>cancelled\<close> holds the \<^verbatim>\<open>cancelled\<close> variable of every run of the fetch effect (request
  \<open>k\<close> is the \<open>k\<close>-th run), and \<open>interval\<close> tells whether the interval of the auto-play
  effect is scheduled. Every handler and callback runs to completion before the next one
  starts (one UI thread).
\<close>

datatype view_mode = Circles | Heat

record 'e component_state =
  features :: "'e list"
  textFilter :: string
  view :: view_mode
  timeIndex :: int
  isPlaying :: bool
  querying :: bool
  cancelled :: "bool list"
  interval :: bool

text \<open>
  The store holds the array the feed delivered. While the component renders, the memos
  \<^verbatim>\<open>sorted\<close> and \<^verbatim>\<open>times\<close> read \<^verbatim>\<open>f.properties.time\<close> on its elements: an element with a
  \<^verbatim>\<open>properties\<close> object is a feature of the shape above; an element without one (or an
  element that is \<^verbatim>\<open>null\<close>) makes that read throw a \<^verbatim>\<open>TypeError\<close>. There is no error
  boundary, so an exception thrown while rendering unmounts the view.

  \<open>raw_state\<close> is the state as the setters leave it, \<open>app_state\<close> the state of a view that
  has rendered: every element of its store is a feature. A view is \<open>Inr\<close> of its state
  while mounted and \<open>Inl\<close> of the exception once unmounted.
\<close>

datatype js_error = RangeError | NetworkFailure | SyntaxError | TypeError

datatype array_element = WellFormed feature | Malformed

type_synonym app_state = "feature component_state"

type_synonym raw_state = "array_element component_state"

type_synonym view_state = "js_error + app_state"

definition with_features :: "'a component_state \<Rightarrow> 'b list \<Rightarrow> 'b component_state" where
  "with_features s fs =
     \<lparr>features = fs, textFilter = textFilter s, view = view s, timeIndex = timeIndex s,
      isPlaying = isPlaying s, querying = querying s, cancelled = cancelled s,
      interval = interval s\<rparr>"

definition unrendered :: "app_state \<Rightarrow> raw_state" where
  "unrendered s = with_features s (map WellFormed (features s))"

text \<open>
  \<^verbatim>\<open>times = sorted.map((f) => f.properties.time)\<close> visits every element of the store, and
  so does the comparator of \<^verbatim>\<open>sorted\<close> on a store of two or more elements: rendering
  throws exactly when some element has no \<^verbatim>\<open>properties\<close>.
\<close>

fun render_store :: "array_element list \<Rightarrow> js_error + feature list" where
  "render_store [] = Inr []"
| "render_store (Malformed # es) = Inl TypeError"
| "render_store (WellFormed f # es) =
     (case render_store es of Inl e \<Rightarrow> Inl e | Inr fs \<Rightarrow> Inr (f # fs))"

definition render :: "raw_state \<Rightarrow> view_state" where
  "render r =
     (case render_store (features r) of
        Inl e \<Rightarrow> Inl e
      | Inr fs \<Rightarrow> Inr (with_features r fs))"

text \<open>A handler or callback that arrives at a view: nothing happens once it is unmounted.\<close>

definition on_view :: "(app_state \<Rightarrow> view_state) \<Rightarrow> view_state \<Rightarrow> view_state" where
  "on_view f v = (case v of Inl e \<Rightarrow> Inl e | Inr s \<Rightarrow> f s)"

definition store_in :: "view_state \<Rightarrow> js_error + feature list" where
  "store_in v = (case v of Inl e \<Rightarrow> Inl e | Inr s \<Rightarrow> Inr (features s))"

definition initial_state :: app_state where
  "initial_state =
     \<lparr>features = [], textFilter = [], view = Circles, timeIndex = 0, isPlaying = False,
      querying = False, cancelled = [], interval = False\<rparr>"

definition times_of :: "app_state \<Rightarrow> int list" where
  "times_of s = times_list (sorted_features (features s))"

definition filtered :: "app_state \<Rightarrow> feature list" where
  "filtered s =
     filtered_of (sorted_features (features s)) (times_of s) (textFilter s) (timeIndex s)"

section \<open>Animation driver\<close>

definition handlePlayPause :: "app_state \<Rightarrow> app_state" where
  "handlePlayPause s =
     (let s1 = (if \<not> isPlaying s then s\<lparr>timeIndex := 0\<rparr> else s)
      in s1\<lparr>isPlaying := \<not> isPlaying s\<rparr>)"

text \<open>
  The auto-play effect (dependencies \<^verbatim>\<open>[isPlaying, times.length]\<close>): its clean-up clears
  the interval of the previous run, its body schedules one when playing.
\<close>

definition autoplay_effect :: "app_state \<Rightarrow> app_state" where
  "autoplay_effect s = s\<lparr>interval := isPlaying s\<rparr>"

definition play_pause_click :: "app_state \<Rightarrow> app_state" where
  "play_pause_click s = autoplay_effect (handlePlayPause s)"

text \<open>
  500 ms have passed. Nothing runs unless an interval is scheduled; otherwise the
  callback advances the cursor or, at the end, clears its own interval and keeps the
  cursor. It never touches \<open>isPlaying\<close>.
\<close>

definition tick :: "app_state \<Rightarrow> app_state" where
  "tick s =
     (if \<not> interval s then s
      else if timeIndex s < int (length (times_of s)) - 1 then s\<lparr>timeIndex := timeIndex s + 1\<rparr>
      else s\<lparr>interval := False\<rparr>)"

section \<open>Fetch\<close>

text \<open>
  What the awaited part of \<^verbatim>\<open>run\<close> can meet: \<^verbatim>\<open>makeUsgsUrl\<close> throws (an invalid date),
  \<^verbatim>\<open>fetch\<close> rejects (network), \<^verbatim>\<open>res.json()\<close> rejects (the body is not JSON), or the body
  parses to a value that is \<^verbatim>\<open>null\<close>, that has no array under \<^verbatim>\<open>features\<close>, or that has
  one. \<^verbatim>\<open>Array.isArray(data.features)\<close> does not look at the elements: the array is stored
  as it is, with or without malformed elements.
\<close>

datatype json_data = Nullish | NoFeatureArray | FeatureArray "array_element list"

datatype fetch_outcome = UrlThrows | FetchRejects | JsonRejects | Data json_data

text \<open>
  The fetch effect (dependencies \<^verbatim>\<open>[start, end, minMag, limit]\<close>) on mount and on every
  change of a parameter: React first runs the clean-up of the previous run, which sets
  that run's \<^verbatim>\<open>cancelled\<close>; the new run declares its own \<^verbatim>\<open>cancelled = false\<close> and
  \<^verbatim>\<open>run()\<close> sets \<^verbatim>\<open>querying\<close> before it awaits. The new request is number
  \<open>length (cancelled s)\<close>.
\<close>

definition fetch_effect :: "app_state \<Rightarrow> app_state" where
  "fetch_effect s =
     (let flags = cancelled s;
          cleaned = (if flags = [] then flags else flags[length flags - 1 := True])
      in s\<lparr>cancelled := cleaned @ [False], querying := True\<rparr>)"

text \<open>
  The three parts of \<^verbatim>\<open>run\<close> after the awaits, on the state the setters write; \<open>c\<close> is
  the request's \<^verbatim>\<open>cancelled\<close>.
\<close>

definition try_part :: "bool \<Rightarrow> fetch_outcome \<Rightarrow> raw_state \<Rightarrow> js_error + raw_state" where
  "try_part c outcome s =
     (case outcome of
        UrlThrows \<Rightarrow> Inl RangeError
      | FetchRejects \<Rightarrow> Inl NetworkFailure
      | JsonRejects \<Rightarrow> Inl SyntaxError
      | Data Nullish \<Rightarrow> Inl TypeError
      | Data NoFeatureArray \<Rightarrow> Inr (if \<not> c then s\<lparr>features := [], timeIndex := 0\<rparr> else s)
      | Data (FeatureArray fs) \<Rightarrow> Inr (if \<not> c then s\<lparr>features := fs, timeIndex := 0\<rparr> else s))"

definition catch_part :: "bool \<Rightarrow> js_error \<Rightarrow> raw_state \<Rightarrow> js_error + raw_state" where
  "catch_part c e s = Inr (if \<not> c then s\<lparr>features := []\<rparr> else s)"

definition finally_part :: "bool \<Rightarrow> raw_state \<Rightarrow> raw_state" where
  "finally_part c s = (if \<not> c then s\<lparr>querying := False\<rparr> else s)"

definition run_resume :: "bool \<Rightarrow> fetch_outcome \<Rightarrow> raw_state \<Rightarrow> js_error + raw_state" where
  "run_resume c outcome s =
     (case try_part c outcome s of
        Inr s1 \<Rightarrow> Inr (finally_part c s1)
      | Inl e \<Rightarrow>
          (case catch_part c e s of
             Inr s1 \<Rightarrow> Inr (finally_part c s1)
           | Inl e1 \<Rightarrow> Inl e1))"

text \<open>
  The effect that snaps the cursor to the last index (dependency \<^verbatim>\<open>[times]\<close>), and the
  effects that follow a call of \<^verbatim>\<open>setFeatures\<close>: the array is a new one, so \<^verbatim>\<open>sorted\<close> and
  \<^verbatim>\<open>times\<close> are recomputed and the snap effect runs; the auto-play effect runs again when
  \<^verbatim>\<open>times.length\<close> has changed.
\<close>

definition snap_effect :: "app_state \<Rightarrow> app_state" where
  "snap_effect s =
     (if length (times_of s) > 0 then s\<lparr>timeIndex := int (length (times_of s)) - 1\<rparr> else s)"

definition effects_after_setFeatures :: "nat \<Rightarrow> app_state \<Rightarrow> app_state" where
  "effects_after_setFeatures old_length s =
     (let s1 = snap_effect s
      in if length (times_of s1) \<noteq> old_length then autoplay_effect s1 else s1)"

text \<open>
  Request \<open>k\<close> completes with \<open>outcome\<close> in a mounted view: the rest of \<^verbatim>\<open>run\<close> executes
  with that run's \<^verbatim>\<open>cancelled\<close> (a rejection of \<^verbatim>\<open>run\<close> itself would reach nobody and leave
  the state alone), then React renders, then the effects run. A request that was never
  issued does not complete. \<open>fetch_committed\<close> is the view React commits before the
  effects run.
\<close>

definition fetch_committed :: "nat \<Rightarrow> fetch_outcome \<Rightarrow> app_state \<Rightarrow> view_state" where
  "fetch_committed k outcome s =
     (case js_index (cancelled s) (int k) of
        None \<Rightarrow> Inr s
      | Some c \<Rightarrow>
          (case run_resume c outcome (unrendered s) of
             Inl e \<Rightarrow> Inr s
           | Inr r \<Rightarrow> render r))"

definition fetch_resolved :: "nat \<Rightarrow> fetch_outcome \<Rightarrow> app_state \<Rightarrow> view_state" where
  "fetch_resolved k outcome s =
     (case js_index (cancelled s) (int k) of
        None \<Rightarrow> Inr s
      | Some c \<Rightarrow>
          (case fetch_committed k outcome s of
             Inl e \<Rightarrow> Inl e
           | Inr s1 \<Rightarrow>
               Inr (if c then s1 else effects_after_setFeatures (length (times_of s)) s1)))"

text \<open>The array a fetch delivers to the store: the one under \<^verbatim>\<open>features\<close>, or nothing.\<close>

definition store_of :: "fetch_outcome \<Rightarrow> array_element list" where
  "store_of outcome = (case outcome of Data (FeatureArray es) \<Rightarrow> es | _ \<Rightarrow> [])"

text \<open>
  A fetch fails when it delivers no array: the URL builder throws, the request or the
  parsing rejects, the body is \<^verbatim>\<open>null\<close> or it has no array under \<^verbatim>\<open>features\<close>.
\<close>

definition fetch_failed :: "fetch_outcome \<Rightarrow> bool" where
  "fetch_failed outcome = (case outcome of Data (FeatureArray es) \<Rightarrow> False | _ \<Rightarrow> True)"

section \<open>Render surface\<close>

text \<open>
  \<^verbatim>\<open>const [lng, lat, depthKm] = f.geometry?.coordinates || []\<close>,
  \<^verbatim>\<open>const m = props.mag ?? 0\<close> and the test
  \<^verbatim>\<open>typeof lat !== "number" || typeof lng !== "number"\<close>.
\<close>

definition coords_of :: "feature \<Rightarrow> jsval list" where
  "coords_of f = (case coordinates f of None \<Rightarrow> [] | Some cs \<Rightarrow> cs)"

definition lng_of :: "feature \<Rightarrow> jsval option" where
  "lng_of f = js_index (coords_of f) 0"

definition lat_of :: "feature \<Rightarrow> jsval option" where
  "lat_of f = js_index (coords_of f) 1"

definition mag_or_zero :: "feature \<Rightarrow> real" where
  "mag_or_zero f = (case mag f of None \<Rightarrow> 0 | Some m \<Rightarrow> m)"

fun is_number :: "jsval option \<Rightarrow> bool" where
  "is_number (Some (JNum r)) = True"
| "is_number _ = False"

text \<open>The number in a value that passed the \<^verbatim>\<open>typeof\<close> test.\<close>

fun number_of :: "jsval option \<Rightarrow> real" where
  "number_of (Some (JNum r)) = r"
| "number_of _ = 0"

record marker =
  key :: string
  center :: "real \<times> real"
  radius :: real
  color :: string
  fillColor :: string

definition CircleMarker :: "feature \<Rightarrow> marker" where
  "CircleMarker f =
     \<lparr>key = fid f, center = (number_of (lat_of f), number_of (lng_of f)),
      radius = magToRadius (mag_or_zero f), color = magnitudeColor (mag_or_zero f),
      fillColor = magnitudeColor (mag_or_zero f)\<rparr>"

definition circle_of :: "feature \<Rightarrow> marker option" where
  "circle_of f =
     (if \<not> is_number (lat_of f) \<or> \<not> is_number (lng_of f) then None
      else Some (CircleMarker f))"

text \<open>
  \<^verbatim>\<open>view === "circles" && filtered.map(...)\<close>; React renders the elements of the array
  that are not \<^verbatim>\<open>null\<close>.
\<close>

definition circle_markers :: "view_mode \<Rightarrow> feature list \<Rightarrow> marker list" where
  "circle_markers v flt =
     (if v = Circles then map the (filter (\<lambda>el. el \<noteq> None) (map circle_of flt)) else [])"

definition heat_point :: "feature \<Rightarrow> real \<times> real \<times> real" where
  "heat_point f = (number_of (lat_of f), number_of (lng_of f), max 0.1 (mag_or_zero f))"

definition heat_of :: "feature \<Rightarrow> (real \<times> real \<times> real) option" where
  "heat_of f =
     (if \<not> is_number (lat_of f) \<or> \<not> is_number (lng_of f) then None
      else Some (heat_point f))"

text \<open>\<^verbatim>\<open>filtered.map(...).filter(Boolean)\<close>: an array is truthy, \<^verbatim>\<open>null\<close> is not.\<close>

definition heatPoints :: "feature list \<Rightarrow> (real \<times> real \<times> real) list" where
  "heatPoints flt = map the (filter (\<lambda>p. p \<noteq> None) (map heat_of flt))"

text \<open>An event can be drawn when both its latitude and its longitude are numbers.\<close>

definition valid_coordinates :: "feature \<Rightarrow> bool" where
  "valid_coordinates f = (is_number (lat_of f) \<and> is_number (lng_of f))"

section \<open>The pipeline as the specification words it\<close>

text \<open>
  A query matches an event when it is a case-insensitive substring of the place, the absent
  place being the empty string; the cutoff is \<open>timestamps[cursor]\<close>.
\<close>

definition spec_place_match :: "string \<Rightarrow> feature \<Rightarrow> bool" where
  "spec_place_match q f = sublist (toLowerCase q) (toLowerCase (place_or_empty f))"

definition spec_filtered :: "feature list \<Rightarrow> string \<Rightarrow> nat \<Rightarrow> feature list" where
  "spec_filtered srt q cursor =
     filter (\<lambda>f. spec_place_match q f \<and> time f \<le> times_list srt ! cursor) srt"

text \<open>An event with nothing but a time and a place, for concrete runs.\<close>

definition quake :: "int \<Rightarrow> string \<Rightarrow> feature" where
  "quake t p =
     \<lparr>fid = [], coordinates = None, time = t, place = Some p, mag = None, url = None\<rparr>"

section \<open>Concrete states\<close>

definition blank_query_state :: app_state where
  "blank_query_state = initial_state\<lparr>features := [quake 100 ''Alaska''], textFilter := '' ''\<rparr>"

definition japan_query_state :: app_state where
  "japan_query_state =
     initial_state\<lparr>features := [quake 300 ''Alaska'', quake 100 ''Near Tokyo, Japan''],
       textFilter := ''japan''\<rparr>"

definition three_events :: app_state where
  "three_events = initial_state\<lparr>features := [quake 300 ''a'', quake 100 ''b'', quake 200 ''c'']\<rparr>"

definition five_events_at_3 :: app_state where
  "five_events_at_3 =
     initial_state\<lparr>features := [quake 10 [], quake 20 [], quake 30 [], quake 40 [], quake 50 []],
       timeIndex := 3\<rparr>"

text \<open>Six events, the cursor scrubbed to the last one, request 0 in flight.\<close>

definition scrubbed_state :: app_state where
  "scrubbed_state =
     initial_state\<lparr>features := [quake 10 [], quake 20 [], quake 30 [], quake 40 [], quake 50 [], quake 60 []],
       timeIndex := 5, querying := True, cancelled := [False]\<rparr>"

text \<open>Request 0 was superseded by request 1, which is still in flight.\<close>

definition superseded_state :: app_state where
  "superseded_state =
     initial_state\<lparr>features := [quake 10 []], querying := True, cancelled := [True, False]\<rparr>"

definition located :: "jsval list option \<Rightarrow> string \<Rightarrow> feature" where
  "located cs i = \<lparr>fid = i, coordinates = cs, time = 0, place = None, mag = None, url = None\<rparr>"

definition four_located :: "feature list" where
  "four_located =
     [located (Some [JNum 10, JNum 20, JNum 5]) ''a'', located (Some [JNotNum, JNum 1]) ''b'',
      located None ''c'', located (Some [JNum 3, JNum 4]) ''d'']"

section \<open>Properties of the timeline index\<close>


lemma mset_insert_by: "mset (insert_by cmp x ys) = add_mset x (mset ys)"
  by (induction ys) simp_all

lemma mset_js_sort: "mset (js_sort cmp xs) = mset xs"
  by (induction xs) (simp_all add: mset_insert_by)

lemma set_insert_by: "set (insert_by cmp x ys) = insert x (set ys)"
  by (induction ys) auto

lemma set_js_sort: "set (js_sort cmp xs) = set xs"
  by (induction xs) (simp_all add: set_insert_by)

lemma length_js_sort: "length (js_sort cmp xs) = length xs"
  by (induction xs) (simp_all add: mset_insert_by flip: size_mset)

lemma ordered_insert_by_time:
  "sorted_wrt time_le ys \<Longrightarrow> sorted_wrt time_le (insert_by by_time x ys)"
proof (induction ys)
  case Nil
  show ?case by simp
next
  case (Cons y ys)
  show ?case
  proof (cases "by_time x y \<le> 0")
    case True
    then have "time_le x y" by (simp add: by_time_def)
    moreover have "\<forall>z\<in>set ys. time_le x z"
      using Cons.prems \<open>time_le x y\<close> by auto
    ultimately show ?thesis using True Cons.prems by simp
  next
    case False
    then have "time_le y x" by (simp add: by_time_def)
    then show ?thesis using False Cons by (auto simp: set_insert_by)
  qed
qed

lemma ordered_sorted_features: "sorted_wrt time_le (sorted_features fs)"
  unfolding sorted_features_def
  by (induction fs) (simp_all add: ordered_insert_by_time)

lemma filter_insert_by_time:
  "sorted_wrt time_le ys \<Longrightarrow>
   filter (\<lambda>e. time e = t) (insert_by by_time x ys) =
     (if time x = t then x # filter (\<lambda>e. time e = t) ys else filter (\<lambda>e. time e = t) ys)"
proof (induction ys)
  case Nil
  show ?case by simp
next
  case (Cons y ys)
  show ?case
  proof (cases "by_time x y \<le> 0")
    case True
    then show ?thesis by simp
  next
    case False
    then have lt: "time y < time x" by (simp add: by_time_def)
    have tail: "sorted_wrt time_le ys" using Cons.prems by simp
    show ?thesis
    proof (cases "time x = t")
      case True
      with lt have "time y \<noteq> t" by simp
      then show ?thesis using False True Cons.IH [OF tail] by simp
    next
      case neq: False
      then show ?thesis using False Cons.IH [OF tail] by simp
    qed
  qed
qed

lemma stable_sorted_features:
  "filter (\<lambda>e. time e = t) (sorted_features fs) = filter (\<lambda>e. time e = t) fs"
  unfolding sorted_features_def
proof (induction fs)
  case Nil
  show ?case by simp
next
  case (Cons x xs)
  have "sorted_wrt time_le (js_sort by_time xs)"
    using ordered_sorted_features [of xs] by (simp add: sorted_features_def)
  then show ?case using Cons.IH by (simp add: filter_insert_by_time)
qed

lemma sorted_times_list: "sorted (times_list (sorted_features fs))"
  using ordered_sorted_features [of fs]
  by (simp add: times_list_def sorted_wrt_map)

text \<open>
  C2. For every event collection, the sorted view is a permutation of the collection, is
  non-decreasing by time, and keeps events of equal time in their feed order; the time is
  the only sort key (the result is the stable sort of the library on that key).
\<close>

theorem sorted_features_stable_sort:
  "mset (sorted_features fs) = mset fs
   \<and> sorted_wrt (\<lambda>a b. time a \<le> time b) (sorted_features fs)
   \<and> filter (\<lambda>e. time e = t) (sorted_features fs) = filter (\<lambda>e. time e = t) fs
   \<and> sorted_features fs = sort_key time fs"
proof -
  have perm: "mset (sorted_features fs) = mset fs"
    by (simp add: sorted_features_def mset_js_sort)
  have ord: "sorted_wrt (\<lambda>a b. time a \<le> time b) (sorted_features fs)"
    by (rule ordered_sorted_features)
  have stab: "\<And>k. filter (\<lambda>e. time e = k) (sorted_features fs) = filter (\<lambda>e. time e = k) fs"
    by (rule stable_sorted_features)
  have "sorted (map time (sorted_features fs))"
    using ord by (simp add: sorted_wrt_map)
  moreover have "filter (\<lambda>e. time k = time e) (sorted_features fs) = filter (\<lambda>e. time k = time e) fs" for k :: feature
  proof -
    have flip: "(\<lambda>e::feature. time k = time e) = (\<lambda>e. time e = time k)" by auto
    show ?thesis unfolding flip by (rule stab)
  qed
  ultimately have "sort_key time fs = sorted_features fs"
    using perm by (intro properties_for_sort_key) simp_all
  then have "sorted_features fs = sort_key time fs" by simp
  with perm ord stab show ?thesis by simp
qed

section \<open>Properties of the marker mapping\<close>

lemma color_palette: "magnitudeColor m = palette ! spec_band m"
  by (simp add: magnitudeColor_def palette_def spec_band_def spec_thresholds_def)

lemma band_bound: "spec_band m < length palette"
  by (simp add: palette_def spec_band_def spec_thresholds_def)

lemma distinct_palette: "distinct palette"
  by (simp add: palette_def)

lemma radius_mono:
  assumes "m1 \<le> m2" "- 1 - sqrt 3 \<le> m1"
  shows "magToRadius m1 \<le> magToRadius m2"
proof (cases "- 1 \<le> m1")
  case True
  then have "0 \<le> m1 + 1" "m1 + 1 \<le> m2 + 1" using assms by simp_all
  then have "(m1 + 1)\<^sup>2 \<le> (m2 + 1)\<^sup>2" by (rule power_mono [rotated])
  then show ?thesis by (simp add: magToRadius_def max_def)
next
  case False
  then have "\<bar>m1 + 1\<bar> \<le> sqrt 3" using assms by simp
  then have "\<bar>m1 + 1\<bar> \<le> \<bar>sqrt 3\<bar>" by simp
  then have "(m1 + 1)\<^sup>2 \<le> (sqrt 3)\<^sup>2" by (simp only: abs_le_square_iff)
  then have "(m1 + 1)\<^sup>2 \<le> 3" by simp
  then show ?thesis by (simp add: magToRadius_def max_def)
qed

text \<open>The bound is exact: below it, magnitude \<open>-1\<close> already gets a smaller radius.\<close>

lemma radius_mono_exact:
  "(\<forall>m2\<ge>m1. magToRadius m1 \<le> magToRadius m2) \<longleftrightarrow> - 1 - sqrt 3 \<le> m1"
proof
  assume "- 1 - sqrt 3 \<le> m1"
  then show "\<forall>m2\<ge>m1. magToRadius m1 \<le> magToRadius m2" by (simp add: radius_mono)
next
  assume mono: "\<forall>m2\<ge>m1. magToRadius m1 \<le> magToRadius m2"
  show "- 1 - sqrt 3 \<le> m1"
  proof (rule ccontr)
    assume "\<not> - 1 - sqrt 3 \<le> m1"
    then have below: "m1 + 1 < - sqrt 3" by simp
    have "0 \<le> sqrt 3" by simp
    with below have "m1 \<le> - 1" by linarith
    with mono have "magToRadius m1 \<le> magToRadius (- 1)" by blast
    then have "(m1 + 1)\<^sup>2 \<le> 3" by (simp add: magToRadius_def)
    then have "(m1 + 1)\<^sup>2 \<le> (sqrt 3)\<^sup>2" by simp
    then have "\<bar>m1 + 1\<bar> \<le> \<bar>sqrt 3\<bar>" by (simp only: abs_le_square_iff)
    then show False using below by simp
  qed
qed

text \<open>
  C9, as the code has it. The radius is monotone from \<open>- 1 - sqrt 3\<close> upward (so on all
  magnitudes from 0, the only ones a query with \<open>minmagnitude \<ge> 0\<close> returns), and two
  magnitudes get the same colour exactly when they lie in the same band of the thresholds
  2, 3, 4, 5, 6, 7.
\<close>

theorem radius_monotone_color_banded:
  "(m1 \<le> m2 \<and> - 1 - sqrt 3 \<le> m1 \<longrightarrow> magToRadius m1 \<le> magToRadius m2)
   \<and> (magnitudeColor m1 = magnitudeColor m2 \<longleftrightarrow> spec_band m1 = spec_band m2)"
proof -
  have "(palette ! spec_band m1 = palette ! spec_band m2) = (spec_band m1 = spec_band m2)"
    by (rule nth_eq_iff_index_eq [OF distinct_palette band_bound band_bound])
  then show ?thesis by (simp add: color_palette radius_mono)
qed

theorem radius_monotone_color_banded_witness:
  "magToRadius 0 \<le> magToRadius 1
   \<and> (magnitudeColor 0 = magnitudeColor 1 \<longleftrightarrow> spec_band 0 = spec_band 1)"
proof -
  have "0 \<le> sqrt 3" by simp
  then have "(0::real) \<le> 1 \<and> - 1 - sqrt 3 \<le> 0" by linarith
  then show ?thesis using radius_monotone_color_banded [of 0 1] by blast
qed

text \<open>
  C9 as stated fails: magnitude \<open>-3\<close> is below magnitude \<open>0\<close> and gets the larger radius
  (4 against 3), because the radius squares \<open>m + 1\<close>.
\<close>

theorem radius_not_monotone_on_negatives:
  "(- 3 :: real) \<le> 0 \<and> magToRadius (- 3) = 4 \<and> magToRadius 0 = 3
   \<and> \<not> magToRadius (- 3) \<le> magToRadius 0"
  by (simp add: magToRadius_def)

section \<open>Properties of the filter pipeline\<close>

lemma js_includes_sublist: "js_includes s q \<longleftrightarrow> sublist q s"
  by (induction s) (simp_all add: sublist_Cons_right)

lemma cutoff_stage_in_range:
  "0 \<le> i \<Longrightarrow> i < int (length tms) \<Longrightarrow>
   cutoff_stage tms i base = filter (\<lambda>f. time f \<le> tms ! nat i) base"
  by (auto simp add: cutoff_stage_def js_index_def js_le_def)

lemma cutoff_stage_beyond:
  "tms \<noteq> [] \<Longrightarrow> int (length tms) \<le> i \<Longrightarrow> cutoff_stage tms i base = []"
  by (simp add: cutoff_stage_def js_index_def js_le_def)

lemma cutoff_stage_Nil: "cutoff_stage [] i base = base"
  by (simp add: cutoff_stage_def)

lemma text_stage_filter:
  "text_stage q base = filter (\<lambda>f. trim q = [] \<or> spec_place_match q f) base"
  by (simp add: text_stage_def spec_place_match_def js_includes_sublist)

lemma length_times_of: "length (times_of s) = length (features s)"
  by (simp add: times_of_def times_list_def sorted_features_def length_js_sort)

lemma times_of_eq_Nil: "times_of s = [] \<longleftrightarrow> features s = []"
  by (metis length_0_conv length_times_of)

lemma sorted_features_Nil: "sorted_features [] = []"
  by (simp add: sorted_features_def)

lemma times_mono:
  assumes "j \<le> i" "i < length (features s)"
  shows "times_of s ! j \<le> times_of s ! i"
proof -
  have "sorted (times_of s)" by (simp add: times_of_def sorted_times_list)
  then show ?thesis using assms by (simp add: sorted_nth_mono length_times_of)
qed

lemma filtered_in_range:
  assumes "0 \<le> i" "i < int (length (features s))"
  shows "filtered (s\<lparr>timeIndex := i\<rparr>) =
    filter (\<lambda>f. time f \<le> times_of s ! nat i) (text_stage (textFilter s) (sorted_features (features s)))"
  using assms
  by (simp add: filtered_def filtered_of_def times_of_def cutoff_stage_in_range
      times_list_def sorted_features_def length_js_sort)

text \<open>
  C1, as the code has it. With the cursor inside the timeline (or no event at all), the
  output is the sorted events filtered, in their order, by exactly two tests: the query is
  blank (empty after trimming) or is a case-insensitive substring of the place, the absent
  place being the empty string; and the time is at most \<open>timestamps[cursor]\<close>. Magnitude
  and depth take no part.
\<close>

theorem filtered_is_text_and_cutoff_filter:
  assumes "features s \<noteq> [] \<Longrightarrow> 0 \<le> timeIndex s \<and> timeIndex s < int (length (features s))"
  shows "filtered s =
    filter (\<lambda>f. (trim (textFilter s) = [] \<or> spec_place_match (textFilter s) f)
                 \<and> time f \<le> times_of s ! nat (timeIndex s))
      (sorted_features (features s))"
proof (cases "features s = []")
  case True
  then show ?thesis
    by (simp add: filtered_def filtered_of_def cutoff_stage_def times_of_def times_list_def
        sorted_features_Nil text_stage_filter)
next
  case False
  with assms show ?thesis
    by (simp add: filtered_def filtered_of_def cutoff_stage_in_range length_times_of text_stage_filter)
qed

theorem filtered_is_text_and_cutoff_filter_witness:
  "filtered japan_query_state = [quake 100 ''Near Tokyo, Japan'']"
proof -
  have inr: "0 \<le> timeIndex japan_query_state
      \<and> timeIndex japan_query_state < int (length (features japan_query_state))"
    by (simp add: japan_query_state_def initial_state_def)
  have rhs: "filter (\<lambda>f. (trim (textFilter japan_query_state) = []
                    \<or> spec_place_match (textFilter japan_query_state) f)
                 \<and> time f \<le> times_of japan_query_state ! nat (timeIndex japan_query_state))
      (sorted_features (features japan_query_state)) = [quake 100 ''Near Tokyo, Japan'']"
    by code_simp
  show ?thesis using filtered_is_text_and_cutoff_filter [of japan_query_state] inr rhs by simp
qed

text \<open>
  C1 as stated fails on a query of white space only: \<^verbatim>\<open>textFilter.trim()\<close> is empty, the
  text stage is skipped and the event is kept, although a blank is no substring of
  \<open>Alaska\<close>.
\<close>

theorem blank_query_keeps_every_event:
  "filtered blank_query_state = [quake 100 ''Alaska'']
   \<and> spec_filtered (sorted_features (features blank_query_state)) (textFilter blank_query_state)
        (nat (timeIndex blank_query_state)) = []
   \<and> filtered blank_query_state \<noteq>
       spec_filtered (sorted_features (features blank_query_state)) (textFilter blank_query_state)
        (nat (timeIndex blank_query_state))"
  by code_simp

text \<open>
  C3. For in-range cursors \<open>j < i\<close>, the output at \<open>i\<close> holds only events at or before
  \<open>timestamps[i]\<close>, and the output at \<open>j\<close> is contained in the output at \<open>i\<close>, as a set and
  as a subsequence.
\<close>

theorem filtered_monotone_in_cursor:
  assumes "0 \<le> j" "j < i" "i < int (length (features s))"
  shows "(\<forall>f \<in> set (filtered (s\<lparr>timeIndex := i\<rparr>)). time f \<le> times_of s ! nat i)
    \<and> set (filtered (s\<lparr>timeIndex := j\<rparr>)) \<subseteq> set (filtered (s\<lparr>timeIndex := i\<rparr>))
    \<and> subseq (filtered (s\<lparr>timeIndex := j\<rparr>)) (filtered (s\<lparr>timeIndex := i\<rparr>))"
proof -
  let ?base = "text_stage (textFilter s) (sorted_features (features s))"
  have fi: "filtered (s\<lparr>timeIndex := i\<rparr>) = filter (\<lambda>f. time f \<le> times_of s ! nat i) ?base"
    using assms by (intro filtered_in_range) simp_all
  have fj: "filtered (s\<lparr>timeIndex := j\<rparr>) = filter (\<lambda>f. time f \<le> times_of s ! nat j) ?base"
    using assms by (intro filtered_in_range) simp_all
  have le: "times_of s ! nat j \<le> times_of s ! nat i"
    using assms by (intro times_mono) simp_all
  have nest: "filter (\<lambda>f. time f \<le> times_of s ! nat j) ?base
      = filter (\<lambda>f. time f \<le> times_of s ! nat j) (filter (\<lambda>f. time f \<le> times_of s ! nat i) ?base)"
    using le by (auto intro: filter_cong)
  have sub: "subseq (filtered (s\<lparr>timeIndex := j\<rparr>)) (filtered (s\<lparr>timeIndex := i\<rparr>))"
    unfolding fi fj by (subst nest) (rule subseq_filter_left)
  have "set (filtered (s\<lparr>timeIndex := j\<rparr>)) \<subseteq> set (filtered (s\<lparr>timeIndex := i\<rparr>))"
    unfolding fi fj using le by auto
  moreover have "\<forall>f \<in> set (filtered (s\<lparr>timeIndex := i\<rparr>)). time f \<le> times_of s ! nat i"
    unfolding fi by simp
  ultimately show ?thesis using sub by simp
qed

theorem filtered_monotone_in_cursor_witness:
  "list_all (\<lambda>f. time f \<le> 300) (filtered (three_events\<lparr>timeIndex := 2\<rparr>))
    \<and> set (filtered (three_events\<lparr>timeIndex := 0\<rparr>)) \<subseteq> set (filtered (three_events\<lparr>timeIndex := 2\<rparr>))
    \<and> subseq (filtered (three_events\<lparr>timeIndex := 0\<rparr>)) (filtered (three_events\<lparr>timeIndex := 2\<rparr>))"
proof -
  have h: "(0::int) \<le> 0" "(0::int) < 2" "2 < int (length (features three_events))"
    by (simp_all add: three_events_def initial_state_def)
  have v: "times_of three_events ! nat 2 = 300" by code_simp
  show ?thesis using filtered_monotone_in_cursor [OF h] v by (simp add: list_all_iff)
qed

text \<open>
  C10. The pipeline is total. On a non-empty timeline a cursor at or beyond its length
  finds no cutoff and the output is empty; on an empty timeline the cutoff stage is
  skipped and the output is that of the text stage. Both are stated for the memo's body on
  any inputs and for the component state.
\<close>

theorem filtered_total_out_of_range:
  "(tms \<noteq> [] \<and> int (length tms) \<le> i \<longrightarrow> js_index tms i = None \<and> filtered_of srt tms q i = [])
   \<and> filtered_of srt [] q i = text_stage q srt
   \<and> (features s \<noteq> [] \<and> int (length (features s)) \<le> timeIndex s \<longrightarrow> filtered s = [])
   \<and> (features s = [] \<longrightarrow> filtered s = text_stage (textFilter s) (sorted_features (features s)))"
proof -
  have a: "tms \<noteq> [] \<and> int (length tms) \<le> i \<longrightarrow> js_index tms i = None \<and> filtered_of srt tms q i = []"
    by (simp add: filtered_of_def cutoff_stage_beyond js_index_def)
  have b: "filtered_of srt [] q i = text_stage q srt"
    by (simp add: filtered_of_def cutoff_stage_Nil)
  have c: "features s \<noteq> [] \<and> int (length (features s)) \<le> timeIndex s \<longrightarrow> filtered s = []"
    by (simp add: filtered_def filtered_of_def cutoff_stage_beyond times_of_eq_Nil length_times_of)
  have d: "features s = [] \<longrightarrow> filtered s = text_stage (textFilter s) (sorted_features (features s))"
  proof
    assume "features s = []"
    then have "times_of s = []" by (simp only: times_of_eq_Nil)
    then show "filtered s = text_stage (textFilter s) (sorted_features (features s))"
      by (simp only: filtered_def filtered_of_def cutoff_stage_Nil)
  qed
  from a b c d show ?thesis by blast
qed

theorem filtered_total_out_of_range_witness:
  "js_index [100, 200::int] 2 = None
   \<and> filtered_of [quake 100 ''a'', quake 200 ''b''] [100, 200] [] 2 = []
   \<and> filtered (initial_state\<lparr>features := [quake 100 ''a'', quake 200 ''b''], timeIndex := 7\<rparr>) = []
   \<and> filtered (initial_state\<lparr>textFilter := ''x'', timeIndex := 7\<rparr>) = []"
  using filtered_total_out_of_range [of "[100, 200]" 2 "[quake 100 ''a'', quake 200 ''b'']" "[]"
      "initial_state\<lparr>features := [quake 100 ''a'', quake 200 ''b''], timeIndex := 7\<rparr>"]
    filtered_total_out_of_range [of "[]" 0 "[]" "[]" "initial_state\<lparr>textFilter := ''x'', timeIndex := 7\<rparr>"]
  by (simp add: initial_state_def text_stage_def sorted_features_Nil)

section \<open>Properties of the render surface\<close>

lemma circle_of_valid:
  "circle_of f = (if valid_coordinates f then Some (CircleMarker f) else None)"
  by (simp add: circle_of_def valid_coordinates_def)

lemma heat_of_valid:
  "heat_of f = (if valid_coordinates f then Some (heat_point f) else None)"
  by (simp add: heat_of_def valid_coordinates_def)

lemma drop_nulls:
  "map the (filter (\<lambda>el. el \<noteq> None) (map (\<lambda>f. if P f then Some (g f) else None) xs))
     = map g (filter P xs)"
  by (induction xs) auto

lemma circle_markers_filter:
  "map the (filter (\<lambda>el. el \<noteq> None) (map circle_of flt)) = map CircleMarker (filter valid_coordinates flt)"
proof -
  have eq: "circle_of = (\<lambda>f. if valid_coordinates f then Some (CircleMarker f) else None)"
    by (rule ext) (rule circle_of_valid)
  show ?thesis unfolding eq by (rule drop_nulls)
qed

lemma heatPoints_filter:
  "heatPoints flt = map heat_point (filter valid_coordinates flt)"
proof -
  have eq: "heat_of = (\<lambda>f. if valid_coordinates f then Some (heat_point f) else None)"
    by (rule ext) (rule heat_of_valid)
  show ?thesis unfolding heatPoints_def eq by (rule drop_nulls)
qed

text \<open>
  C8. In circles mode the markers drawn, and in heat mode the heat points, are those of
  exactly the events whose latitude and longitude are both numbers, one per such event and
  in the order of the filtered list: an event with an invalid coordinate is left out and
  no other event is lost. Both functions are total, so nothing is raised.
\<close>

theorem invalid_coordinates_excluded:
  "circle_markers Circles flt = map CircleMarker (filter valid_coordinates flt)
   \<and> heatPoints flt = map heat_point (filter valid_coordinates flt)"
  unfolding circle_markers_def using circle_markers_filter heatPoints_filter
  by (simp only: if_True simp_thms)

theorem invalid_coordinates_excluded_witness:
  "map key (circle_markers Circles four_located) = [''a'', ''d'']
   \<and> heatPoints four_located = [(20, 10, 0.1), (4, 3, 0.1)]"
  using invalid_coordinates_excluded [of four_located]
  by (simp add: four_located_def located_def valid_coordinates_def lat_of_def lng_of_def
      coords_of_def js_index_def CircleMarker_def heat_point_def mag_or_zero_def)

section \<open>Properties of the animation driver\<close>

lemma play_from_stopped:
  "\<not> isPlaying s \<Longrightarrow> play_pause_click s = s\<lparr>timeIndex := 0, isPlaying := True, interval := True\<rparr>"
  by (simp add: play_pause_click_def handlePlayPause_def autoplay_effect_def)

lemma tick_scheduled:
  "interval s \<Longrightarrow>
   timeIndex (tick s) = (if timeIndex s < int (length (times_of s)) - 1 then timeIndex s + 1 else timeIndex s)
   \<and> isPlaying (tick s) = isPlaying s \<and> features (tick s) = features s"
  by (simp add: tick_def)

lemma tick_keeps: "isPlaying (tick s) = isPlaying s" "features (tick s) = features s"
  by (simp_all add: tick_def)

lemma ticks_keep: "isPlaying ((tick ^^ n) s) = isPlaying s \<and> features ((tick ^^ n) s) = features s"
  by (induction n) (simp_all add: tick_keeps)

lemma ticks_cursor:
  assumes "interval s \<or> int (length (features s)) - 1 \<le> timeIndex s"
    and "0 \<le> timeIndex s" "timeIndex s \<le> int (length (features s)) - 1"
  shows "timeIndex ((tick ^^ n) s) = min (timeIndex s + int n) (int (length (features s)) - 1)"
  using assms
proof (induction n arbitrary: s)
  case 0
  then show ?case by simp
next
  case (Suc n)
  let ?L = "int (length (features s))"
  have step: "(tick ^^ Suc n) s = (tick ^^ n) (tick s)" by (simp add: funpow_swap1)
  show ?case
  proof (cases "timeIndex s < ?L - 1")
    case True
    with Suc.prems have sched: "interval s" by auto
    have t: "tick s = s\<lparr>timeIndex := timeIndex s + 1\<rparr>"
      using sched True by (simp add: tick_def length_times_of)
    have "timeIndex ((tick ^^ n) (tick s)) = min (timeIndex (tick s) + int n) (int (length (features (tick s))) - 1)"
      using sched True Suc.prems by (intro Suc.IH) (simp_all add: t)
    then show ?thesis using step by (simp add: t)
  next
    case False
    with Suc.prems have at_end: "timeIndex s = ?L - 1" by simp
    have t: "tick s = s \<or> tick s = s\<lparr>interval := False\<rparr>"
      using False by (simp add: tick_def length_times_of)
    have "timeIndex ((tick ^^ n) (tick s)) = min (timeIndex (tick s) + int n) (int (length (features (tick s))) - 1)"
      using t at_end Suc.prems by (intro Suc.IH) auto
    moreover have "timeIndex (tick s) = timeIndex s" "features (tick s) = features s"
      using t by auto
    ultimately show ?thesis using step at_end by simp
  qed
qed

text \<open>
  C5. A play click in the Stopped state puts the cursor at 0 and enters Playing, with an
  interval scheduled. A tick while Playing adds exactly 1 to a cursor below the last index
  and otherwise leaves the cursor alone, and never leaves Playing. Hence, on a non-empty
  timeline, \<open>n\<close> ticks after the play click the cursor is \<open>min n (length - 1)\<close>, wherever it
  was before the click: with five events, 0, 1, 2, 3, 4 and then 4 for ever.
\<close>

theorem playback_resets_then_advances:
  "(\<not> isPlaying s \<longrightarrow>
      timeIndex (play_pause_click s) = 0 \<and> isPlaying (play_pause_click s) \<and> interval (play_pause_click s))
   \<and> (isPlaying s \<and> interval s \<longrightarrow>
      timeIndex (tick s) = (if timeIndex s < int (length (times_of s)) - 1 then timeIndex s + 1 else timeIndex s)
      \<and> isPlaying (tick s))
   \<and> (\<not> isPlaying s \<and> features s \<noteq> [] \<longrightarrow>
      timeIndex ((tick ^^ n) (play_pause_click s)) = min (int n) (int (length (features s)) - 1)
      \<and> isPlaying ((tick ^^ n) (play_pause_click s)))"
proof -
  have a: "\<not> isPlaying s \<longrightarrow>
      timeIndex (play_pause_click s) = 0 \<and> isPlaying (play_pause_click s) \<and> interval (play_pause_click s)"
    by (simp add: play_from_stopped)
  have b: "isPlaying s \<and> interval s \<longrightarrow>
      timeIndex (tick s) = (if timeIndex s < int (length (times_of s)) - 1 then timeIndex s + 1 else timeIndex s)
      \<and> isPlaying (tick s)"
    using tick_scheduled [of s] by simp
  have c: "timeIndex ((tick ^^ n) (play_pause_click s)) = min (int n) (int (length (features s)) - 1)
      \<and> isPlaying ((tick ^^ n) (play_pause_click s))"
    if stopped: "\<not> isPlaying s" and some: "features s \<noteq> []"
  proof -
    let ?p = "play_pause_click s"
    have p: "?p = s\<lparr>timeIndex := 0, isPlaying := True, interval := True\<rparr>"
      using stopped by (rule play_from_stopped)
    have pos: "0 < length (features s)" using some by simp
    have "timeIndex ((tick ^^ n) ?p) = min (timeIndex ?p + int n) (int (length (features ?p)) - 1)"
      using pos by (intro ticks_cursor) (simp_all add: p)
    then have "timeIndex ((tick ^^ n) ?p) = min (int n) (int (length (features s)) - 1)"
      by (simp add: p)
    moreover have "isPlaying ((tick ^^ n) ?p)" by (simp add: ticks_keep p)
    ultimately show ?thesis by simp
  qed
  from a b c show ?thesis by blast
qed

theorem playback_scenario_3_of_5:
  "timeIndex five_events_at_3 = 3
   \<and> timeIndex (play_pause_click five_events_at_3) = 0
   \<and> timeIndex ((tick ^^ 1) (play_pause_click five_events_at_3)) = 1
   \<and> timeIndex ((tick ^^ 2) (play_pause_click five_events_at_3)) = 2
   \<and> timeIndex ((tick ^^ 3) (play_pause_click five_events_at_3)) = 3
   \<and> timeIndex ((tick ^^ 4) (play_pause_click five_events_at_3)) = 4
   \<and> timeIndex ((tick ^^ 5) (play_pause_click five_events_at_3)) = 4
   \<and> timeIndex ((tick ^^ 9) (play_pause_click five_events_at_3)) = 4
   \<and> isPlaying ((tick ^^ 9) (play_pause_click five_events_at_3))"
proof -
  have s0: "\<not> isPlaying five_events_at_3" "features five_events_at_3 \<noteq> []"
    "int (length (features five_events_at_3)) - 1 = 4" "timeIndex five_events_at_3 = 3"
    by (simp_all add: five_events_at_3_def initial_state_def)
  show ?thesis
    using playback_resets_then_advances [of five_events_at_3 1]
      playback_resets_then_advances [of five_events_at_3 2]
      playback_resets_then_advances [of five_events_at_3 3]
      playback_resets_then_advances [of five_events_at_3 4]
      playback_resets_then_advances [of five_events_at_3 5]
      playback_resets_then_advances [of five_events_at_3 9] s0
    by simp
qed

section \<open>Properties of the fetch\<close>

lemma js_index_nat: "k < length xs \<Longrightarrow> js_index xs (int k) = Some (xs ! k)"
  by (simp add: js_index_def)

lemma length_fetch_effect: "length (cancelled (fetch_effect s)) = Suc (length (cancelled s))"
  by (simp add: fetch_effect_def Let_def)

lemma newest_flag: "cancelled (fetch_effect s) ! length (cancelled s) = False"
  by (simp add: fetch_effect_def Let_def nth_append)

lemma previous_flag:
  "cancelled s \<noteq> [] \<Longrightarrow> cancelled (fetch_effect s) ! (length (cancelled s) - 1) = True"
  by (simp add: fetch_effect_def Let_def nth_append)

lemma flags_two_fetches:
  "js_index (cancelled (fetch_effect (fetch_effect s))) (int (length (cancelled s))) = Some True"
  "js_index (cancelled (fetch_effect (fetch_effect s))) (int (Suc (length (cancelled s)))) = Some False"
proof -
  let ?s1 = "fetch_effect s"
  have len1: "length (cancelled ?s1) = Suc (length (cancelled s))"
    by (rule length_fetch_effect)
  have len2: "length (cancelled (fetch_effect ?s1)) = Suc (Suc (length (cancelled s)))"
    by (simp add: length_fetch_effect)
  have "cancelled ?s1 \<noteq> []" using len1 by auto
  then have "cancelled (fetch_effect ?s1) ! (length (cancelled ?s1) - 1) = True"
    by (rule previous_flag)
  then have old: "cancelled (fetch_effect ?s1) ! length (cancelled s) = True"
    by (simp add: len1)
  have new: "cancelled (fetch_effect ?s1) ! Suc (length (cancelled s)) = False"
    using newest_flag [of ?s1] by (simp add: len1)
  show "js_index (cancelled (fetch_effect ?s1)) (int (length (cancelled s))) = Some True"
    using old len2 by (simp add: js_index_nat)
  show "js_index (cancelled (fetch_effect ?s1)) (int (Suc (length (cancelled s)))) = Some False"
    using new len2 by (simp add: js_index_nat del: of_nat_Suc)
qed

lemma times_of_updates [simp]:
  "times_of (s\<lparr>timeIndex := i\<rparr>) = times_of s"
  "times_of (s\<lparr>querying := q\<rparr>) = times_of s"
  "times_of (s\<lparr>interval := b\<rparr>) = times_of s"
  "times_of (s\<lparr>isPlaying := p\<rparr>) = times_of s"
  "times_of (s\<lparr>cancelled := cs\<rparr>) = times_of s"
  by (simp_all add: times_of_def)

lemma effects_keep:
  "features (effects_after_setFeatures n s) = features s"
  "querying (effects_after_setFeatures n s) = querying s"
  "cancelled (effects_after_setFeatures n s) = cancelled s"
  by (simp_all add: effects_after_setFeatures_def snap_effect_def autoplay_effect_def Let_def)

lemma render_store_WellFormed: "render_store (map WellFormed fs) = Inr fs"
  by (induction fs) simp_all

lemma render_unrendered: "render (unrendered s) = Inr s"
  by (simp add: render_def unrendered_def with_features_def render_store_WellFormed)

lemma render_emptied:
  "render ((unrendered s)\<lparr>features := [], querying := False\<rparr>) = Inr (s\<lparr>features := [], querying := False\<rparr>)"
  "render ((unrendered s)\<lparr>features := [], timeIndex := 0, querying := False\<rparr>)
     = Inr (s\<lparr>features := [], timeIndex := 0, querying := False\<rparr>)"
  by (simp_all add: render_def unrendered_def with_features_def)

lemma render_delivered:
  "render ((unrendered s)\<lparr>features := es, timeIndex := 0, querying := False\<rparr>)
     = (case render_store es of
          Inl e \<Rightarrow> Inl e
        | Inr fs \<Rightarrow> Inr (s\<lparr>features := fs, timeIndex := 0, querying := False\<rparr>))"
  by (simp add: render_def unrendered_def with_features_def split: sum.split)

lemma run_resume_total: "\<exists>r1. run_resume c outcome r = Inr r1"
  by (simp add: run_resume_def try_part_def catch_part_def split: fetch_outcome.split json_data.split)

lemma run_resume_cancelled: "run_resume True outcome r = Inr r"
  by (cases outcome)
    (simp_all add: run_resume_def try_part_def catch_part_def finally_part_def split: json_data.splits)

lemma run_resume_failed:
  "fetch_failed outcome \<Longrightarrow>
   run_resume False outcome r = Inr (r\<lparr>features := [], querying := False\<rparr>)
   \<or> run_resume False outcome r = Inr (r\<lparr>features := [], timeIndex := 0, querying := False\<rparr>)"
  by (cases outcome)
    (auto simp: run_resume_def try_part_def catch_part_def finally_part_def fetch_failed_def
      split: json_data.splits)

lemma run_resume_delivered:
  "run_resume False (Data (FeatureArray es)) r
     = Inr (r\<lparr>features := es, timeIndex := 0, querying := False\<rparr>)"
  by (simp add: run_resume_def try_part_def finally_part_def)

lemma committed_cancelled:
  "js_index (cancelled s) (int k) = Some True \<Longrightarrow> fetch_committed k outcome s = Inr s"
  by (simp add: fetch_committed_def run_resume_cancelled render_unrendered)

lemma stale_discarded:
  "js_index (cancelled s) (int k) = Some True \<Longrightarrow> fetch_resolved k outcome s = Inr s"
  by (simp add: fetch_resolved_def committed_cancelled)

lemma committed_failed:
  assumes "fetch_failed outcome" "js_index (cancelled s) (int k) = Some False"
  shows "\<exists>s1. fetch_committed k outcome s = Inr s1 \<and> features s1 = [] \<and> \<not> querying s1
    \<and> cancelled s1 = cancelled s"
  using run_resume_failed [OF assms(1), of "unrendered s"] assms(2)
  by (auto simp: fetch_committed_def render_emptied)

lemma committed_delivered:
  assumes "js_index (cancelled s) (int k) = Some False"
  shows "fetch_committed k (Data (FeatureArray es)) s
     = (case render_store es of
          Inl e \<Rightarrow> Inl e
        | Inr fs \<Rightarrow> Inr (s\<lparr>features := fs, timeIndex := 0, querying := False\<rparr>))"
  using assms by (simp add: fetch_committed_def run_resume_delivered render_delivered)

lemma store_of_failed: "fetch_failed outcome \<Longrightarrow> store_of outcome = []"
  by (cases outcome) (auto simp: fetch_failed_def store_of_def split: json_data.splits)

lemma current_wins:
  assumes "js_index (cancelled s) (int k) = Some False"
  shows "store_in (fetch_resolved k outcome s) = render_store (store_of outcome)"
    and "fetch_resolved k outcome s = Inr s1 \<Longrightarrow> cancelled s1 = cancelled s"
proof -
  have both: "store_in (fetch_resolved k outcome s) = render_store (store_of outcome)
      \<and> (\<forall>s1. fetch_resolved k outcome s = Inr s1 \<longrightarrow> cancelled s1 = cancelled s)"
  proof (cases "fetch_failed outcome")
    case True
    then obtain s0 where "fetch_committed k outcome s = Inr s0" "features s0 = []"
        "cancelled s0 = cancelled s"
      using committed_failed [OF True assms] by blast
    then show ?thesis
      using assms True by (auto simp: fetch_resolved_def store_in_def store_of_failed effects_keep)
  next
    case False
    then obtain es where o: "outcome = Data (FeatureArray es)"
      by (cases outcome) (auto simp: fetch_failed_def split: json_data.splits)
    show ?thesis
      using assms
      by (auto simp: o fetch_resolved_def committed_delivered store_in_def store_of_def effects_keep
          split: sum.splits)
  qed
  from both show "store_in (fetch_resolved k outcome s) = render_store (store_of outcome)"
    by blast
  from both show "fetch_resolved k outcome s = Inr s1 \<Longrightarrow> cancelled s1 = cancelled s"
    by blast
qed

text \<open>
  After a fetch that delivers an array of features and was not superseded, the committed
  cursor is 0 and, once the effects have run, the cursor is at the last index of a
  non-empty timeline.
\<close>

lemma fetch_success_resets_then_snaps:
  assumes "js_index (cancelled s) (int k) = Some False"
  shows "fetch_committed k (Data (FeatureArray (map WellFormed fs))) s
      = Inr (s\<lparr>features := fs, timeIndex := 0, querying := False\<rparr>)
    \<and> (\<exists>s1. fetch_resolved k (Data (FeatureArray (map WellFormed fs))) s = Inr s1
          \<and> features s1 = fs
          \<and> timeIndex s1 = (if fs = [] then 0 else int (length fs) - 1))"
  using assms
  by (simp add: fetch_resolved_def committed_delivered render_store_WellFormed
      effects_after_setFeatures_def snap_effect_def autoplay_effect_def Let_def length_times_of)

text \<open>
  A body whose array holds an element without \<^verbatim>\<open>properties\<close> is not a failure for
  \<^verbatim>\<open>run\<close>: the array is stored, and the render that follows throws.
\<close>

lemma malformed_element_unmounts_view:
  "\<not> fetch_failed (Data (FeatureArray [Malformed, WellFormed (quake 5 [])]))
   \<and> run_resume False (Data (FeatureArray [Malformed, WellFormed (quake 5 [])])) (unrendered scrubbed_state)
       = Inr ((unrendered scrubbed_state)
           \<lparr>features := [Malformed, WellFormed (quake 5 [])], timeIndex := 0, querying := False\<rparr>)
   \<and> fetch_resolved 0 (Data (FeatureArray [Malformed, WellFormed (quake 5 [])])) scrubbed_state
       = Inl TypeError"
  by code_simp

text \<open>
  C4 fails on a failed fetch. With six events and the cursor at 5, a rejected fetch empties
  the collection, but the \<^verbatim>\<open>catch\<close> branch does not call \<^verbatim>\<open>setTimeIndex(0)\<close> as the
  success branch does: the cursor is 5 in the committed state and still 5 after the
  effects.
\<close>

theorem fetch_failure_keeps_cursor:
  "fetch_committed 0 FetchRejects scrubbed_state
     = Inr (scrubbed_state\<lparr>features := [], querying := False\<rparr>)
   \<and> fetch_resolved 0 FetchRejects scrubbed_state
     = Inr (scrubbed_state\<lparr>features := [], querying := False\<rparr>)
   \<and> features (scrubbed_state\<lparr>features := [], querying := False\<rparr>) = []
   \<and> timeIndex (scrubbed_state\<lparr>features := [], querying := False\<rparr>) = 5"
  by code_simp

text \<open>
  C6. Two fetches are issued one after the other from any state; \<open>oa\<close> is what the older
  one meets and \<open>ob\<close> what the newer one meets. The older response changes nothing at all,
  whether it arrives first or last, and in both orders of arrival the store ends as the
  newer fetch's result (the array it delivered as the view renders it, else the empty
  collection).
\<close>

theorem newest_fetch_wins:
  "fetch_resolved (length (cancelled s)) oa (fetch_effect (fetch_effect s))
     = Inr (fetch_effect (fetch_effect s))
   \<and> on_view (fetch_resolved (length (cancelled s)) oa)
        (fetch_resolved (Suc (length (cancelled s))) ob (fetch_effect (fetch_effect s)))
     = fetch_resolved (Suc (length (cancelled s))) ob (fetch_effect (fetch_effect s))
   \<and> store_in (on_view (fetch_resolved (length (cancelled s)) oa)
        (fetch_resolved (Suc (length (cancelled s))) ob (fetch_effect (fetch_effect s))))
     = render_store (store_of ob)
   \<and> store_in (on_view (fetch_resolved (Suc (length (cancelled s))) ob)
        (fetch_resolved (length (cancelled s)) oa (fetch_effect (fetch_effect s))))
     = render_store (store_of ob)"
proof -
  let ?s2 = "fetch_effect (fetch_effect s)"
  let ?a = "length (cancelled s)"
  have stale: "js_index (cancelled ?s2) (int ?a) = Some True"
    and cur: "js_index (cancelled ?s2) (int (Suc ?a)) = Some False"
    by (rule flags_two_fetches)+
  have a_first: "fetch_resolved ?a oa ?s2 = Inr ?s2"
    using stale by (rule stale_discarded)
  have b_wins: "store_in (fetch_resolved (Suc ?a) ob ?s2) = render_store (store_of ob)"
    using cur by (rule current_wins)
  have a_last: "on_view (fetch_resolved ?a oa) (fetch_resolved (Suc ?a) ob ?s2)
      = fetch_resolved (Suc ?a) ob ?s2"
  proof (cases "fetch_resolved (Suc ?a) ob ?s2")
    case (Inl e)
    then show ?thesis by (simp add: on_view_def)
  next
    case (Inr s1)
    then have "cancelled s1 = cancelled ?s2" using cur by (rule current_wins(2) [rotated])
    then have "js_index (cancelled s1) (int ?a) = Some True" using stale by simp
    then have "fetch_resolved ?a oa s1 = Inr s1" by (rule stale_discarded)
    then show ?thesis using Inr by (simp add: on_view_def)
  qed
  have b_last: "on_view (fetch_resolved (Suc ?a) ob) (fetch_resolved ?a oa ?s2)
      = fetch_resolved (Suc ?a) ob ?s2"
    by (simp add: a_first on_view_def)
  show ?thesis
    unfolding a_last b_last using a_first b_wins by simp
qed

theorem newest_fetch_wins_witness:
  "store_in (on_view (fetch_resolved 0 FetchRejects)
      (fetch_resolved (Suc 0) (Data (FeatureArray [WellFormed (quake 2 ''B'')]))
        (fetch_effect (fetch_effect initial_state))))
     = Inr [quake 2 ''B'']
   \<and> store_in (on_view (fetch_resolved (Suc 0) (Data (FeatureArray [WellFormed (quake 2 ''B'')])))
      (fetch_resolved 0 FetchRejects (fetch_effect (fetch_effect initial_state))))
     = Inr [quake 2 ''B'']"
proof -
  have len: "length (cancelled initial_state) = 0"
    by (simp add: initial_state_def)
  have res: "render_store (store_of (Data (FeatureArray [WellFormed (quake 2 ''B'')]))) = Inr [quake 2 ''B'']"
    by (simp add: store_of_def)
  show ?thesis
    using newest_fetch_wins [of initial_state FetchRejects "Data (FeatureArray [WellFormed (quake 2 ''B'')])",
        THEN conjunct2, THEN conjunct2]
    unfolding len res .
qed

text \<open>
  C7, as the code has it. Whatever the fetch meets, the rest of \<^verbatim>\<open>run\<close> ends without an
  exception. When the fetch fails (the URL builder throws, the request or the parsing
  rejects, the body is \<^verbatim>\<open>null\<close> or has no array under \<^verbatim>\<open>features\<close>) and the request has
  not been superseded, the view stays mounted through the render and the effects that
  follow, its store is empty and \<^verbatim>\<open>querying\<close> is false. When the request has been
  superseded, its completion changes nothing and the view stays mounted, whatever it met.
\<close>

theorem fetch_failure_empties_store:
  "(\<exists>r1. run_resume c outcome r = Inr r1)
   \<and> (fetch_failed outcome \<and> js_index (cancelled s) (int k) = Some False \<longrightarrow>
        (\<exists>s1. fetch_resolved k outcome s = Inr s1 \<and> features s1 = [] \<and> \<not> querying s1))
   \<and> (js_index (cancelled s) (int k) = Some True \<longrightarrow> fetch_resolved k outcome s = Inr s)"
proof -
  have "\<exists>s1. fetch_resolved k outcome s = Inr s1 \<and> features s1 = [] \<and> \<not> querying s1"
    if f: "fetch_failed outcome" and k: "js_index (cancelled s) (int k) = Some False"
  proof -
    obtain s0 where "fetch_committed k outcome s = Inr s0" "features s0 = []" "\<not> querying s0"
      using committed_failed [OF f k] by blast
    then show ?thesis using k by (simp add: fetch_resolved_def effects_keep)
  qed
  then show ?thesis using run_resume_total stale_discarded by blast
qed

theorem fetch_failure_empties_store_witness:
  "(\<exists>r1. run_resume False JsonRejects (unrendered scrubbed_state) = Inr r1)
   \<and> (\<exists>s1. fetch_resolved 0 JsonRejects scrubbed_state = Inr s1 \<and> features s1 = [] \<and> \<not> querying s1)
   \<and> fetch_resolved 0 JsonRejects superseded_state = Inr superseded_state"
proof -
  have cur: "fetch_failed JsonRejects \<and> js_index (cancelled scrubbed_state) (int 0) = Some False"
    by (simp add: fetch_failed_def scrubbed_state_def initial_state_def js_index_def)
  have old: "js_index (cancelled superseded_state) (int 0) = Some True"
    by (simp add: superseded_state_def initial_state_def js_index_def)
  show ?thesis
    using fetch_failure_empties_store [of False JsonRejects "unrendered scrubbed_state" scrubbed_state 0]
      fetch_failure_empties_store [of False JsonRejects "unrendered scrubbed_state" superseded_state 0]
      cur old
    by blast
qed

text \<open>
  C7 as stated fails for a superseded fetch: its \<^verbatim>\<open>cancelled\<close> is set, so when it fails the
  store keeps its event and \<^verbatim>\<open>querying\<close> stays true.
\<close>

theorem superseded_failure_keeps_store:
  "fetch_failed FetchRejects
   \<and> fetch_resolved 0 FetchRejects superseded_state = Inr superseded_state
   \<and> features superseded_state = [quake 10 []]
   \<and> features superseded_state \<noteq> []
   \<and> querying superseded_state"
  by code_simp

end
